theory Spec2Isabelle
  imports Complex_Main
begin

section \<open>Python values used by the mail client\<close>

text \<open>
  A Python \<open>str\<close> is a sequence of Unicode code points and \<open>len\<close> counts code points,
  so a string is modelled as a list of code points. \<open>str\<close> turns an ASCII literal into
  that representation.
\<close>

type_synonym pystr = "nat list"

abbreviation str :: "string \<Rightarrow> pystr" where
  "str s \<equiv> map of_char s"

text \<open>
  The bounds of a Python slice \<open>xs[start:stop]\<close>: a negative bound counts from the
  end, and every bound is clamped into \<open>[0, len(xs)]\<close>.
\<close>

definition py_bound :: "int \<Rightarrow> nat \<Rightarrow> nat" where
  "py_bound i n =
     (if i < 0 then (if i + int n < 0 then 0 else nat (i + int n))
      else if i > int n then n else nat i)"

definition py_slice :: "'a list \<Rightarrow> int \<Rightarrow> int \<Rightarrow> 'a list" where
  "py_slice xs start stop =
     (let n = length xs; s = py_bound start n; e = py_bound stop n
      in take (e - s) (drop s xs))"

text \<open>\<open>xs[start:]\<close> and \<open>xs[:stop]\<close>.\<close>

definition py_slice_from :: "'a list \<Rightarrow> int \<Rightarrow> 'a list" where
  "py_slice_from xs start = drop (py_bound start (length xs)) xs"

definition py_slice_to :: "'a list \<Rightarrow> int \<Rightarrow> 'a list" where
  "py_slice_to xs stop = take (py_bound stop (length xs)) xs"


section \<open>Pagination of the inbox (app.py, inbox_page)\<close>

text \<open>
  The values computed by lines 654--668 of \<open>inbox_page\<close> from the fetched batch
  \<open>all_emails\<close>, the session's \<open>emails_per_page\<close> and the session's \<open>email_page\<close>.
  Python's \<open>//\<close> is floor division, as \<open>div\<close> on \<open>int\<close> is.
\<close>

record 'a page_view =
  total_emails :: int
  total_pages :: int
  current_page :: int
  start_idx :: int
  end_idx :: int
  emails :: "'a list"

definition inbox_pagination :: "'a list \<Rightarrow> int \<Rightarrow> int \<Rightarrow> 'a page_view" where
  "inbox_pagination all_emails per_page email_page =
     (let n = int (length all_emails);
          tp = (n + per_page - 1) div per_page;
          cp = (if email_page > tp then tp else email_page);
          si = (cp - 1) * per_page;
          ei = min (si + per_page) n
      in \<lparr> total_emails = n, total_pages = tp, current_page = cp,
           start_idx = si, end_idx = ei,
           emails = py_slice all_emails si ei \<rparr>)"

text \<open>
  What \<open>inbox_page\<close> shows for a fetch result: the error, the empty-inbox notice, or a
  page. The fetch result is \<open>Inl\<close> of the error text or \<open>Inr\<close> of the batch.
\<close>

datatype 'a inbox_render = InboxError pystr | InboxEmpty | InboxPage "'a page_view"

definition inbox_page_render :: "pystr + 'a list \<Rightarrow> int \<Rightarrow> int \<Rightarrow> 'a inbox_render" where
  "inbox_page_render result per_page email_page =
     (case result of
        Inl msg \<Rightarrow> InboxError msg
      | Inr all_emails \<Rightarrow>
          if all_emails = [] then InboxEmpty
          else InboxPage (inbox_pagination all_emails per_page email_page))"

text \<open>
  The pagination part of the session state and the way one run of \<open>inbox_page\<close>
  changes it (lines 615--700). The event of a run is the widget call that returned a
  value on it: the select box with its value, or the \<open>st.button\<close> call that returned
  \<open>True\<close>. The source assigns the page number whenever that call returns \<open>True\<close>; it
  passes \<open>disabled=\<close> to the button and tests nothing else.
\<close>

record session_state =
  email_page :: int
  emails_per_page :: int

definition init_session_state :: session_state where
  "init_session_state = \<lparr> email_page = 1, emails_per_page = 25 \<rparr>"

datatype ui_event =
  NoEvent | SelectPerPage int | Refresh | BtnFirst | BtnPrev | BtnNext | BtnLast

definition paginate_state :: "session_state \<Rightarrow> ui_event \<Rightarrow> pystr + 'a list \<Rightarrow> session_state" where
  "paginate_state st ev result =
     (case result of
        Inl msg \<Rightarrow> st
      | Inr all_emails \<Rightarrow>
          if all_emails = [] then st
          else
            let v = inbox_pagination all_emails (emails_per_page st) (email_page st);
                st1 = (if email_page st > total_pages v
                       then st\<lparr>email_page := total_pages v\<rparr> else st)
            in case ev of
                 BtnFirst \<Rightarrow> st1\<lparr>email_page := 1\<rparr>
               | BtnPrev \<Rightarrow> st1\<lparr>email_page := current_page v - 1\<rparr>
               | BtnNext \<Rightarrow> st1\<lparr>email_page := current_page v + 1\<rparr>
               | BtnLast \<Rightarrow> st1\<lparr>email_page := total_pages v\<rparr>
               | _ \<Rightarrow> st1)"

definition inbox_page_state :: "session_state \<Rightarrow> ui_event \<Rightarrow> pystr + 'a list \<Rightarrow> session_state" where
  "inbox_page_state st ev result =
     (case ev of
        SelectPerPage v \<Rightarrow>
          if v \<noteq> emails_per_page st
          then st\<lparr>emails_per_page := v, email_page := 1\<rparr>
          else paginate_state st NoEvent result
      | Refresh \<Rightarrow> paginate_state (st\<lparr>email_page := 1\<rparr>) NoEvent result
      | _ \<Rightarrow> paginate_state st ev result)"

text \<open>The page sizes offered by the select box.\<close>

definition page_sizes :: "int set" where
  "page_sizes = {10, 25, 50, 100}"


section \<open>Strings: substring test and the body preview\<close>

text \<open>
  Python's \<open>sub in s\<close> on strings: \<open>sub\<close> occurs in \<open>s\<close> as a contiguous run.
\<close>

fun py_in :: "'a list \<Rightarrow> 'a list \<Rightarrow> bool" where
  "py_in sub [] = (sub = [])"
| "py_in sub (c # s) = (take (length sub) (c # s) = sub \<or> py_in sub s)"

text \<open>
  The preview expression shared by both transports,
  \<open>body[:500] + "..." if len(body) > 500 else body\<close>
  (gmail_service.py line 98, oauth_service.py line 196).
\<close>

definition truncate_body :: "pystr \<Rightarrow> pystr" where
  "truncate_body body =
     (if length body > 500 then py_slice_to body 500 @ str ''...'' else body)"


section \<open>Direct-credential transport (gmail_service.py)\<close>

text \<open>
  An exception caught by the transport: \<open>imaplib.IMAP4.error\<close> or any other
  \<open>Exception\<close>, each with the text \<open>str(e)\<close>.
\<close>

datatype py_exc = ImapError pystr | OtherError pystr

subsection \<open>authenticate\<close>

text \<open>
  The three calls made inside the \<open>try\<close> of \<open>authenticate\<close>, each with the exception
  it raises, if any. \<open>first_exc\<close> is the exception that leaves the \<open>try\<close>.
\<close>

record auth_env =
  imap_connect :: "py_exc option"
  imap_login :: "py_exc option"
  imap_logout :: "py_exc option"

definition first_exc :: "auth_env \<Rightarrow> py_exc option" where
  "first_exc env =
     (case imap_connect env of
        Some e \<Rightarrow> Some e
      | None \<Rightarrow> (case imap_login env of
                  Some e \<Rightarrow> Some e
                | None \<Rightarrow> imap_logout env))"

definition guidance_message :: pystr where
  "guidance_message =
     str ''Authentication failed: Please use an App Password, not your regular Gmail password. See instructions below.''"

text \<open>The sentence of the guidance message that tells the user what to do.\<close>

definition app_password_guidance :: pystr where
  "app_password_guidance =
     str ''Please use an App Password, not your regular Gmail password''"

text \<open>
  Python's \<open>str.upper\<close> maps every code point on its own: an ASCII letter to its
  capital and any other ASCII code point to itself. For the code points outside ASCII
  the mapping is Unicode's table, which is not among the sources and is the parameter
  \<open>table\<close> (one code point may map to several).
\<close>

definition ascii_upper_char :: "nat \<Rightarrow> nat" where
  "ascii_upper_char c = (if 97 \<le> c \<and> c \<le> 122 then c - 32 else c)"

definition py_upper :: "(nat \<Rightarrow> pystr) \<Rightarrow> pystr \<Rightarrow> pystr" where
  "py_upper table s =
     concat (map (\<lambda>c. if c < 128 then [ascii_upper_char c] else table c) s)"

text \<open>The test of line 45.\<close>

definition is_auth_failed :: "(nat \<Rightarrow> pystr) \<Rightarrow> pystr \<Rightarrow> bool" where
  "is_auth_failed table error_msg =
     (py_in (str ''AUTHENTICATIONFAILED'') (py_upper table error_msg)
      \<or> py_in (str ''Invalid credentials'') error_msg)"

definition authenticate :: "(nat \<Rightarrow> pystr) \<Rightarrow> auth_env \<Rightarrow> bool \<times> pystr" where
  "authenticate table env =
     (case first_exc env of
        None \<Rightarrow> (True, str ''Authentication successful!'')
      | Some (ImapError error_msg) \<Rightarrow>
          if is_auth_failed table error_msg then (False, guidance_message)
          else (False, str ''Authentication failed: '' @ error_msg)
      | Some (OtherError e) \<Rightarrow> (False, str ''Connection error: '' @ e))"

text \<open>
  A table that leaves every code point outside ASCII as it is, and \<open>str.lower\<close> on
  ASCII text, to run the model on concrete ASCII inputs.
\<close>

definition identity_table :: "nat \<Rightarrow> pystr" where
  "identity_table c = [c]"


subsection \<open>get_email_body\<close>

text \<open>
  What the \<open>try\<close> around \<open>get_payload(decode=True)\<close> and \<open>payload.decode\<close> does for one
  part: it raises, the payload is falsy (\<open>None\<close> or empty), or text is decoded.
\<close>

datatype decode_outcome = Raises | Falsy | Decoded pystr

record mime_part =
  content_type :: pystr
  content_disposition :: "pystr option"
  part_payload :: decode_outcome

text \<open>
  The value \<open>msg.get(name)\<close> returns for a header that is present: a \<open>str\<close>, or an
  \<open>email.header.Header\<close> object when the raw header holds a byte outside ASCII (given
  here with the bytes of the header).
\<close>

datatype hdr_value = HStr pystr | HHeader "nat list"

record email_message =
  hdr_subject :: "hdr_value option"
  hdr_from :: "hdr_value option"
  hdr_date :: "hdr_value option"
  is_multipart :: bool
  walk :: "mime_part list"
  payload :: decode_outcome
  raw_payload :: pystr

text \<open>\<open>str(x)\<close> for an optional header: \<open>str(None)\<close> is \<open>"None"\<close>.\<close>

definition py_str_opt :: "pystr option \<Rightarrow> pystr" where
  "py_str_opt v = (case v of None \<Rightarrow> str ''None'' | Some s \<Rightarrow> s)"

text \<open>The loop over \<open>msg.walk()\<close>: the first usable \<open>text/plain\<close> part wins.\<close>

fun walk_body :: "mime_part list \<Rightarrow> pystr" where
  "walk_body [] = []"
| "walk_body (part # parts) =
     (if content_type part = str ''text/plain''
         \<and> \<not> py_in (str ''attachment'') (py_str_opt (content_disposition part))
      then (case part_payload part of
              Decoded s \<Rightarrow> s
            | _ \<Rightarrow> walk_body parts)
      else walk_body parts)"

definition extract_body :: "email_message \<Rightarrow> pystr" where
  "extract_body msg =
     (if is_multipart msg then walk_body (walk msg)
      else (case payload msg of
              Decoded s \<Rightarrow> s
            | Falsy \<Rightarrow> []
            | Raises \<Rightarrow> raw_payload msg))"

definition get_email_body :: "email_message \<Rightarrow> pystr" where
  "get_email_body msg = truncate_body (extract_body msg)"

subsection \<open>decode_mime_header\<close>

text \<open>
  The functions of Python's standard library that \<open>fetch_emails\<close> calls, taken as
  parameters: \<open>email.header.decode_header\<close>, which accepts a \<open>str\<close> or a \<open>Header\<close> and
  raises \<open>HeaderParseError\<close> on a malformed encoded word (\<open>Inl\<close> of the text of the
  exception); \<open>bytes.decode(encoding, errors='replace')\<close>, which raises on an unknown
  encoding (\<open>None\<close>); the same with \<open>'utf-8'\<close>, which never raises; and
  \<open>parsedate_to_datetime\<close> followed by \<open>strftime\<close> on a \<open>str\<close>, \<open>None\<close> when it raises.
\<close>

datatype header_part = Bytes "nat list" | Text pystr

record email_lib =
  decode_header :: "hdr_value \<Rightarrow> pystr + (header_part \<times> pystr option) list"
  bytes_decode :: "pystr \<Rightarrow> nat list \<Rightarrow> pystr option"
  utf8_decode :: "nat list \<Rightarrow> pystr"
  parse_date :: "pystr \<Rightarrow> pystr option"

definition decode_part :: "email_lib \<Rightarrow> header_part \<times> pystr option \<Rightarrow> pystr" where
  "decode_part lib pe =
     (case fst pe of
        Text s \<Rightarrow> s
      | Bytes b \<Rightarrow>
          (let enc = (case snd pe of
                        None \<Rightarrow> str ''utf-8''
                      | Some e \<Rightarrow> if e = [] then str ''utf-8'' else e)
           in case bytes_decode lib enc b of
                Some s \<Rightarrow> s
              | None \<Rightarrow> utf8_decode lib b))"

text \<open>
  The call of \<open>decode_header\<close> on line 59 stands outside any \<open>try\<close>: its exception
  leaves \<open>decode_mime_header\<close>.
\<close>

definition decode_mime_header :: "email_lib \<Rightarrow> hdr_value option \<Rightarrow> py_exc + pystr" where
  "decode_mime_header lib header_value =
     (case header_value of
        None \<Rightarrow> Inr []
      | Some h \<Rightarrow>
          (case decode_header lib h of
             Inl m \<Rightarrow> Inl (OtherError m)
           | Inr parts \<Rightarrow> Inr (concat (map (decode_part lib) parts))))"

subsection \<open>fetch_emails\<close>

record email_record =
  em_id :: pystr
  em_subject :: pystr
  em_from :: pystr
  em_date :: pystr
  em_body :: pystr

text \<open>\<open>msg.get(name, default)\<close>.\<close>

definition get_default :: "'a option \<Rightarrow> 'a \<Rightarrow> 'a" where
  "get_default v d = (case v of None \<Rightarrow> d | Some x \<Rightarrow> x)"

text \<open>
  Lines 149--153: the parsed and formatted date, or the fallback. On a \<open>Header\<close> object
  \<open>parsedate_to_datetime\<close> raises, the object is truthy and cannot be sliced, so
  \<open>date_str[:20]\<close> raises \<open>TypeError\<close> inside the \<open>except\<close> clause and the exception
  leaves the loop.
\<close>

definition header_not_subscriptable :: pystr where
  "header_not_subscriptable =
     [39] @ str ''Header'' @ [39] @ str '' object is not subscriptable''"

definition format_date :: "email_lib \<Rightarrow> hdr_value \<Rightarrow> py_exc + pystr" where
  "format_date lib date_str =
     (case date_str of
        HStr s \<Rightarrow>
          (case parse_date lib s of
             Some date_formatted \<Rightarrow> Inr date_formatted
           | None \<Rightarrow> Inr (if s \<noteq> [] then py_slice_to s 20 else str ''Unknown''))
      | HHeader b \<Rightarrow> Inl (OtherError header_not_subscriptable))"

text \<open>
  Lines 140--161: the record built from one fetched message, or the exception raised
  on the way, in the order of the source: subject, sender, body, date.
\<close>

definition message_record :: "email_lib \<Rightarrow> pystr \<Rightarrow> email_message \<Rightarrow> py_exc + email_record" where
  "message_record lib email_id msg =
     (case decode_mime_header lib
             (Some (get_default (hdr_subject msg) (HStr (str ''No Subject'')))) of
        Inl e \<Rightarrow> Inl e
      | Inr subject \<Rightarrow>
          (case decode_mime_header lib
                  (Some (get_default (hdr_from msg) (HStr (str ''Unknown'')))) of
             Inl e \<Rightarrow> Inl e
           | Inr from_addr \<Rightarrow>
               (let body = get_email_body msg
                in case format_date lib (get_default (hdr_date msg) (HStr [])) of
                     Inl e \<Rightarrow> Inl e
                   | Inr date_formatted \<Rightarrow>
                       Inr \<lparr> em_id = email_id, em_subject = subject, em_from = from_addr,
                             em_date = date_formatted, em_body = body \<rparr>)))"

text \<open>
  One element of \<open>msg_data\<close>: a tuple carrying the message, or anything else (skipped).
  For a fetched message \<open>imaplib\<close> returns the tuple followed by the closing line of the
  response. The loop over \<open>msg_data\<close> appends to the list collected so far.
\<close>

datatype response_part = PartTuple email_message | PartOther

fun parts_records ::
  "email_lib \<Rightarrow> pystr \<Rightarrow> response_part list \<Rightarrow> email_record list
   \<Rightarrow> py_exc + email_record list" where
  "parts_records lib email_id [] collected = Inr collected"
| "parts_records lib email_id (PartTuple msg # rest) collected =
     (case message_record lib email_id msg of
        Inl e \<Rightarrow> Inl e
      | Inr r \<Rightarrow> parts_records lib email_id rest (collected @ [r]))"
| "parts_records lib email_id (PartOther # rest) collected =
     parts_records lib email_id rest collected"

text \<open>
  The mailbox as \<open>fetch_emails\<close> sees it: the exception of connecting, logging in and
  selecting the inbox, if any; the result of the search (status and identifiers,
  oldest first); the result of fetching one identifier; the exception of logging out.
\<close>

record imap_env =
  imap_open :: "py_exc option"
  imap_search :: "py_exc + (pystr \<times> pystr list)"
  imap_fetch :: "pystr \<Rightarrow> py_exc + (pystr \<times> response_part list)"
  imap_close :: "py_exc option"

text \<open>Lines 127--128: the selection of the latest identifiers, newest first.\<close>

definition select_recent :: "'a list \<Rightarrow> int \<Rightarrow> 'a list" where
  "select_recent email_ids count =
     rev (if int (length email_ids) > count then py_slice_from email_ids (- count)
          else email_ids)"

text \<open>The loop of lines 132--161, with the list \<open>emails\<close> collected so far; an exception
  leaves it.\<close>

fun fetch_loop ::
  "email_lib \<Rightarrow> (pystr \<Rightarrow> py_exc + (pystr \<times> response_part list)) \<Rightarrow> pystr list
   \<Rightarrow> email_record list \<Rightarrow> py_exc + email_record list" where
  "fetch_loop lib fetch [] collected = Inr collected"
| "fetch_loop lib fetch (email_id # ids) collected =
     (case fetch email_id of
        Inl e \<Rightarrow> Inl e
      | Inr (status, msg_data) \<Rightarrow>
          if status \<noteq> str ''OK'' then fetch_loop lib fetch ids collected
          else (case parts_records lib email_id msg_data collected of
                  Inl e \<Rightarrow> Inl e
                | Inr collected' \<Rightarrow> fetch_loop lib fetch ids collected'))"

definition fetch_error :: "py_exc \<Rightarrow> pystr" where
  "fetch_error e =
     (case e of
        ImapError m \<Rightarrow> str ''IMAP error: '' @ m
      | OtherError m \<Rightarrow> str ''Error fetching emails: '' @ m)"

text \<open>
  \<open>fetch_emails\<close>: \<open>Inl\<close> of the message for \<open>(False, message)\<close>, \<open>Inr\<close> of the batch for
  \<open>(True, emails)\<close>.
\<close>

definition fetch_emails :: "email_lib \<Rightarrow> imap_env \<Rightarrow> int \<Rightarrow> pystr + email_record list" where
  "fetch_emails lib env count =
     (case imap_open env of
        Some e \<Rightarrow> Inl (fetch_error e)
      | None \<Rightarrow>
         (case imap_search env of
            Inl e \<Rightarrow> Inl (fetch_error e)
          | Inr (status, email_ids) \<Rightarrow>
              if status \<noteq> str ''OK'' then Inl (str ''Failed to fetch emails'')
              else
                (case fetch_loop lib (imap_fetch env) (select_recent email_ids count) [] of
                   Inl e \<Rightarrow> Inl (fetch_error e)
                 | Inr collected \<Rightarrow>
                     (case imap_close env of
                        Some e \<Rightarrow> Inl (fetch_error e)
                      | None \<Rightarrow> Inr collected))))"


section \<open>Delegated-authorization transport (oauth_service.py)\<close>

subsection \<open>fetch_emails_oauth\<close>

text \<open>
  A message as the mail API returns it: the list under \<open>payload.headers\<close> and the
  \<open>snippet\<close>, each possibly absent.
\<close>

record api_header =
  h_name :: pystr
  h_value :: pystr

record api_message =
  api_headers :: "api_header list option"
  api_snippet :: "pystr option"

text \<open>
  \<open>next((h['value'] for h in headers if h['name'].lower() == key), default)\<close>.
  \<open>lower\<close> is Python's \<open>str.lower\<close>, a library function taken as a parameter.
\<close>

definition header_value ::
  "(pystr \<Rightarrow> pystr) \<Rightarrow> pystr \<Rightarrow> pystr \<Rightarrow> api_header list \<Rightarrow> pystr" where
  "header_value lower key dflt headers =
     (case filter (\<lambda>h. lower (h_name h) = key) headers of
        [] \<Rightarrow> dflt
      | h # _ \<Rightarrow> h_value h)"

text \<open>Lines 174--197: the record built from one message.\<close>

definition oauth_record :: "(pystr \<Rightarrow> pystr) \<Rightarrow> pystr \<Rightarrow> api_message \<Rightarrow> email_record" where
  "oauth_record lower msg_id message =
     (let headers = get_default (api_headers message) [];
          subject = header_value lower (str ''subject'') (str ''No Subject'') headers;
          from_addr = header_value lower (str ''from'') (str ''Unknown'') headers;
          date_str = header_value lower (str ''date'') (str ''Unknown'') headers;
          snippet = get_default (api_snippet message) [];
          date_formatted = (if length date_str > 25 then py_slice_to date_str 25 else date_str)
      in \<lparr> em_id = msg_id, em_subject = subject, em_from = from_addr,
           em_date = date_formatted, em_body = truncate_body snippet \<rparr>)"






subsection \<open>credentials_to_dict and credentials_from_dict\<close>

text \<open>
  The values a credential field or a dictionary entry holds: \<open>None\<close>, a string, or a
  list of strings.
\<close>

datatype pyval = PNone | PStr pystr | PList "pystr list"

text \<open>
  Modelled from the spec: the credential class (\<open>google.oauth2.credentials.Credentials\<close>)
  is a library type that is not among the sources. It is taken as the plain record of
  the six fields of \<open>DelegatedCredential\<close>, whose constructor stores its arguments and
  whose attributes read them back. Python is dynamically typed, so each field holds a
  \<open>pyval\<close>.
\<close>

record credentials =
  token :: pyval
  refresh_token :: pyval
  token_uri :: pyval
  client_id :: pyval
  client_secret :: pyval
  scopes :: pyval

text \<open>A dictionary with string keys, in insertion order.\<close>

type_synonym pydict = "(string \<times> pyval) list"

text \<open>
  \<open>list(credentials.scopes) if credentials.scopes else []\<close>: \<open>None\<close>, the empty string
  and the empty list are falsy; \<open>list\<close> of a string is the list of its characters.
\<close>

definition scopes_entry :: "pyval \<Rightarrow> pyval" where
  "scopes_entry v =
     (case v of
        PNone \<Rightarrow> PList []
      | PStr s \<Rightarrow> if s = [] then PList [] else PList (map (\<lambda>c. [c]) s)
      | PList l \<Rightarrow> if l = [] then PList [] else PList l)"

definition credentials_to_dict :: "credentials \<Rightarrow> pydict" where
  "credentials_to_dict c =
     [(''token'', token c),
      (''refresh_token'', refresh_token c),
      (''token_uri'', token_uri c),
      (''client_id'', client_id c),
      (''client_secret'', client_secret c),
      (''scopes'', scopes_entry (scopes c))]"

datatype py_error = KeyError string

text \<open>\<open>d.get(key)\<close> and \<open>d.get(key, default)\<close>; \<open>d[key]\<close> raises on a missing key.\<close>

definition dict_get :: "pydict \<Rightarrow> string \<Rightarrow> pyval \<Rightarrow> pyval" where
  "dict_get d k dflt = (case map_of d k of None \<Rightarrow> dflt | Some v \<Rightarrow> v)"

definition credentials_from_dict :: "pydict \<Rightarrow> py_error + credentials" where
  "credentials_from_dict creds_dict =
     (case map_of creds_dict ''token'' of
        None \<Rightarrow> Inl (KeyError ''token'')
      | Some t \<Rightarrow>
          Inr \<lparr> token = t,
                refresh_token = dict_get creds_dict ''refresh_token'' PNone,
                token_uri = dict_get creds_dict ''token_uri''
                              (PStr (str ''https://oauth2.googleapis.com/token'')),
                client_id = dict_get creds_dict ''client_id'' PNone,
                client_secret = dict_get creds_dict ''client_secret'' PNone,
                scopes = dict_get creds_dict ''scopes'' PNone \<rparr>)"


section \<open>Sending from the compose page (app.py, compose_page)\<close>

text \<open>
  The part of the session that \<open>compose_page\<close> reads, the call it makes to one of the
  two transports, and what it shows. \<open>transport\<close> is the result \<open>(success, message)\<close> of
  a call. The outcome lists the messages shown and the transport calls made, in order;
  \<open>Unhandled\<close> is an exception that leaves \<open>compose_page\<close>.
\<close>

record app_session =
  auth_method :: "pystr option"
  oauth_credentials :: "pydict option"
  email :: pystr
  password :: pystr

datatype transport_call =
  SendEmailOAuth credentials pystr pystr pystr pystr
| SendEmail pystr pystr pystr pystr pystr

datatype ui_message = StError pystr | StSuccess pystr

datatype compose_outcome =
  Unhandled py_error
| Rendered "ui_message list" "transport_call list"

text \<open>The signs that start the messages: warning, cross mark, check mark.\<close>

definition warning_sign :: pystr where
  "warning_sign = [0x26A0, 0xFE0F, 0x20]"

definition cross_mark :: pystr where
  "cross_mark = [0x274C, 0x20]"

definition check_mark :: pystr where
  "check_mark = [0x2705, 0x20]"

definition show_result :: "bool \<times> pystr \<Rightarrow> ui_message" where
  "show_result r =
     (if fst r then StSuccess (check_mark @ snd r) else StError (cross_mark @ snd r))"

text \<open>
  The test \<open>auth_method == 'oauth' and oauth_credentials\<close>: the stored dictionary when
  the delegated transport is to be used (\<open>None\<close> and the empty dictionary are falsy).
\<close>

definition oauth_active :: "app_session \<Rightarrow> pydict option" where
  "oauth_active session =
     (case oauth_credentials session of
        None \<Rightarrow> None
      | Some d \<Rightarrow> if auth_method session = Some (str ''oauth'') \<and> d \<noteq> [] then Some d else None)"

definition compose_page ::
  "app_session \<Rightarrow> (transport_call \<Rightarrow> bool \<times> pystr) \<Rightarrow> bool \<Rightarrow> pystr \<Rightarrow> pystr \<Rightarrow> pystr
   \<Rightarrow> compose_outcome" where
  "compose_page session transport submitted to_email subject body =
     (if \<not> submitted then Rendered [] []
      else if to_email = [] then
        Rendered [StError (warning_sign @ str ''Please enter a recipient email address.'')] []
      else if subject = [] then
        Rendered [StError (warning_sign @ str ''Please enter a subject.'')] []
      else if body = [] then
        Rendered [StError (warning_sign @ str ''Please enter a message.'')] []
      else (case oauth_active session of
              Some d \<Rightarrow>
                (case credentials_from_dict d of
                   Inl err \<Rightarrow> Unhandled err
                 | Inr creds \<Rightarrow>
                     (let call = SendEmailOAuth creds to_email subject body (email session)
                      in Rendered [show_result (transport call)] [call]))
            | None \<Rightarrow>
                (let call = SendEmail (email session) (password session) to_email subject body
                 in Rendered [show_result (transport call)] [call])))"


section \<open>A small mailbox to run the model on\<close>

text \<open>
  A date parser that accepts one well-formed date and raises on everything else, a
  library around it, and a mailbox of three plain messages whose second message
  carries a date that does not parse; the records expected for them. A second mailbox
  differs in the second message only, whose Date header holds the byte 228.
\<close>

definition demo_parse_date :: "pystr \<Rightarrow> pystr option" where
  "demo_parse_date s =
     (if s = str ''Mon, 01 Jan 2024 10:00:00 +0000'' then Some (str ''Jan 01, 2024 10:00 AM'')
      else None)"

definition demo_lib :: email_lib where
  "demo_lib = \<lparr> decode_header =
                   (\<lambda>h. case h of
                          HStr s \<Rightarrow> Inr [(Text s, None)]
                        | HHeader b \<Rightarrow> Inr [(Bytes b, Some (str ''unknown-8bit''))]),
                 bytes_decode = (\<lambda>enc b. if enc = str ''utf-8'' then Some b else None),
                 utf8_decode = (\<lambda>b. b),
                 parse_date = demo_parse_date \<rparr>"

definition demo_message :: "hdr_value option \<Rightarrow> email_message" where
  "demo_message d =
     \<lparr> hdr_subject = Some (HStr (str ''Hi'')), hdr_from = Some (HStr (str ''a@example.com'')),
       hdr_date = d, is_multipart = False, walk = [],
       payload = Decoded (str ''hello''), raw_payload = str ''hello'' \<rparr>"

definition demo_messages :: "pystr \<Rightarrow> email_message" where
  "demo_messages i =
     (if i = str ''2'' then demo_message (Some (HStr (str ''the day after tomorrow at noon'')))
      else demo_message (Some (HStr (str ''Mon, 01 Jan 2024 10:00:00 +0000''))))"

definition demo_record :: "pystr \<Rightarrow> email_record" where
  "demo_record i =
     \<lparr> em_id = i, em_subject = str ''Hi'', em_from = str ''a@example.com'',
       em_date = (if i = str ''2'' then str ''the day after tomorr''
                  else str ''Jan 01, 2024 10:00 AM''),
       em_body = str ''hello'' \<rparr>"

definition demo_env :: imap_env where
  "demo_env = \<lparr> imap_open = None,
                 imap_search = Inr (str ''OK'', [str ''1'', str ''2'', str ''3'']),
                 imap_fetch = (\<lambda>i. Inr (str ''OK'', [PartTuple (demo_messages i), PartOther])),
                 imap_close = None \<rparr>"

definition demo_messages_8bit :: "pystr \<Rightarrow> email_message" where
  "demo_messages_8bit i =
     (if i = str ''2''
      then demo_message (Some (HHeader (str ''Mon, 01 J'' @ [228] @ str ''n 2024 10:00:00 +0000'')))
      else demo_message (Some (HStr (str ''Mon, 01 Jan 2024 10:00:00 +0000''))))"

definition demo_env_8bit :: imap_env where
  "demo_env_8bit =
     \<lparr> imap_open = None,
       imap_search = Inr (str ''OK'', [str ''1'', str ''2'', str ''3'']),
       imap_fetch = (\<lambda>i. Inr (str ''OK'', [PartTuple (demo_messages_8bit i), PartOther])),
       imap_close = None \<rparr>"



text \<open>A credential with no refresh token and no scopes.\<close>

definition demo_credentials :: credentials where
  "demo_credentials =
     \<lparr> token = PStr (str ''ya29.token''), refresh_token = PNone,
       token_uri = PStr (str ''https://oauth2.googleapis.com/token''),
       client_id = PStr (str ''client''), client_secret = PStr (str ''secret''),
       scopes = PList [] \<rparr>"


section \<open>Facts about slices and pages\<close>

lemma py_bound_nonneg: "0 \<le> i \<Longrightarrow> py_bound i n = min (nat i) n"
  by (auto simp: py_bound_def)

lemma py_slice_nonneg:
  "0 \<le> s \<Longrightarrow> 0 \<le> e \<Longrightarrow> e \<le> int (length xs) \<Longrightarrow>
   py_slice xs s e = take (nat e - nat s) (drop (nat s) xs)"
proof -
  assume s: "0 \<le> s" and e: "0 \<le> e" and le: "e \<le> int (length xs)"
  have e': "min (nat e) (length xs) = nat e" using e le by simp
  show ?thesis
  proof (cases "nat s \<le> length xs")
    case True
    then show ?thesis
      using s e by (simp add: py_slice_def py_bound_nonneg Let_def e')
  next
    case False
    then show ?thesis
      using s e by (simp add: py_slice_def py_bound_nonneg Let_def e')
  qed
qed

lemma ceil_div:
  assumes "0 < (b::int)"
  shows "(a + b - 1) div b = \<lceil>real_of_int a / real_of_int b\<rceil>"
proof -
  define q where "q = (a + b - 1) div b"
  define r where "r = (a + b - 1) mod b"
  have eq: "a + b - 1 = b * q + r" by (simp add: q_def r_def)
  have r: "0 \<le> r" "r < b" using assms by (simp_all add: r_def)
  have lo: "a \<le> q * b" using eq r by (simp add: algebra_simps)
  have hi: "(q - 1) * b < a" using eq r by (simp add: algebra_simps)
  have bpos: "0 < real_of_int b" using assms by simp
  have "real_of_int a \<le> real_of_int q * real_of_int b"
    using lo by (metis of_int_le_iff of_int_mult)
  then have 1: "real_of_int a / real_of_int b \<le> real_of_int q"
    using bpos by (simp add: pos_divide_le_eq)
  have "real_of_int (q - 1) * real_of_int b < real_of_int a"
    using hi by (metis of_int_less_iff of_int_mult)
  then have 2: "real_of_int q - 1 < real_of_int a / real_of_int b"
    using bpos by (simp add: pos_less_divide_eq)
  have "\<lceil>real_of_int a / real_of_int b\<rceil> = q"
    using 1 2 by (intro ceiling_unique) simp_all
  then show ?thesis by (simp add: q_def)
qed

lemma concat_pages:
  "concat (map (\<lambda>i. take m (drop (i * m) xs)) [0..<k]) = take (k * m) xs"
proof (induction k)
  case 0
  show ?case by simp
next
  case (Suc k)
  have "take (Suc k * m) xs = take (k * m + m) xs" by (simp add: add.commute)
  also have "\<dots> = take (k * m) xs @ take m (drop (k * m) xs)" by (rule take_add)
  finally show ?case using Suc by simp
qed

lemma upto_as_upt: "[1..int k] = map (\<lambda>i. int i + 1) [0..<k]"
proof (induction k)
  case 0
  show ?case by simp
next
  case (Suc k)
  have "[1..int (Suc k)] = [1..int k] @ [int k + 1]"
    using upto_rec2[of 1 "int k + 1"] by (simp add: add.commute)
  then show ?case using Suc by simp
qed

lemma total_pages_eq:
  "total_pages (inbox_pagination xs ps p) = (int (length xs) + ps - 1) div ps"
  by (simp add: inbox_pagination_def Let_def)

lemma total_pages_bounds:
  fixes xs :: "'a list" and ps :: int
  assumes "0 < ps"
  defines "tp \<equiv> (int (length xs) + ps - 1) div ps"
  shows "int (length xs) \<le> tp * ps" and "(tp - 1) * ps < int (length xs)" and "0 \<le> tp"
proof -
  define r where "r = (int (length xs) + ps - 1) mod ps"
  have eq: "int (length xs) + ps - 1 = ps * tp + r" by (simp add: tp_def r_def)
  have r: "0 \<le> r" "r < ps" using assms by (simp_all add: r_def)
  show "int (length xs) \<le> tp * ps" using eq r by (simp add: algebra_simps)
  show "(tp - 1) * ps < int (length xs)" using eq r by (simp add: algebra_simps)
  show "0 \<le> tp" unfolding tp_def using assms by (simp add: pos_imp_zdiv_nonneg_iff)
qed

lemma page_fields:
  assumes ps: "0 < ps" and p1: "1 \<le> p" and p2: "p \<le> (int (length xs) + ps - 1) div ps"
  shows "current_page (inbox_pagination xs ps p) = p"
    and "start_idx (inbox_pagination xs ps p) = (p - 1) * ps"
    and "end_idx (inbox_pagination xs ps p) = min (p * ps) (int (length xs))"
    and "emails (inbox_pagination xs ps p) =
           take (nat (min (p * ps) (int (length xs)) - (p - 1) * ps)) (drop (nat ((p - 1) * ps)) xs)"
proof -
  let ?v = "inbox_pagination xs ps p"
  let ?n = "int (length xs)"
  show cp: "current_page ?v = p" using p2 by (simp add: inbox_pagination_def Let_def)
  show si: "start_idx ?v = (p - 1) * ps" using p2 by (simp add: inbox_pagination_def Let_def)
  have "(p - 1) * ps + ps = p * ps" by (simp add: algebra_simps)
  then show ei: "end_idx ?v = min (p * ps) ?n" using p2 by (simp add: inbox_pagination_def Let_def)
  have em: "emails ?v = py_slice xs (start_idx ?v) (end_idx ?v)"
    by (simp add: inbox_pagination_def Let_def)
  have s0: "0 \<le> (p - 1) * ps" using ps p1 by simp
  have e0: "0 \<le> min (p * ps) ?n" using ps p1 by simp
  have "py_slice xs ((p - 1) * ps) (min (p * ps) ?n)
        = take (nat (min (p * ps) ?n) - nat ((p - 1) * ps)) (drop (nat ((p - 1) * ps)) xs)"
    using s0 e0 by (intro py_slice_nonneg) simp_all
  moreover have "nat (min (p * ps) ?n) - nat ((p - 1) * ps) = nat (min (p * ps) ?n - (p - 1) * ps)"
    using s0 e0 by (simp add: nat_diff_distrib')
  ultimately show "emails ?v =
           take (nat (min (p * ps) ?n - (p - 1) * ps)) (drop (nat ((p - 1) * ps)) xs)"
    using em si ei by simp
qed

lemma page_emails_take:
  assumes ps: "0 < ps" and p1: "1 \<le> p" and p2: "p \<le> (int (length xs) + ps - 1) div ps"
  shows "emails (inbox_pagination xs ps p) = take (nat ps) (drop (nat ((p - 1) * ps)) xs)"
proof -
  let ?n = "int (length xs)"
  let ?s = "(p - 1) * ps"
  have s0: "0 \<le> ?s" using ps p1 by simp
  have pp: "p * ps = ?s + ps" by (simp add: algebra_simps)
  have "take (nat (min (p * ps) ?n - ?s)) (drop (nat ?s) xs) = take (nat ps) (drop (nat ?s) xs)"
  proof (cases "p * ps \<le> ?n")
    case True
    then show ?thesis using pp by (simp add: min_def)
  next
    case False
    then have "min (p * ps) ?n = ?n" by simp
    moreover have "length (drop (nat ?s) xs) = nat (?n - ?s)" using s0 by (simp add: nat_diff_distrib')
    moreover have "nat (?n - ?s) \<le> nat ps" using False pp by simp
    ultimately show ?thesis by simp
  qed
  then show ?thesis using page_fields(4)[OF assms] by simp
qed

lemma concat_all_pages:
  assumes ps: "0 < ps"
  shows "concat (map (\<lambda>p. emails (inbox_pagination xs ps p))
                  [1..(int (length xs) + ps - 1) div ps]) = xs"
proof -
  let ?tp = "(int (length xs) + ps - 1) div ps"
  define k where "k = nat ?tp"
  have tp0: "0 \<le> ?tp" using total_pages_bounds(3)[OF ps] .
  then have tpk: "?tp = int k" by (simp add: k_def)
  have "map (\<lambda>p. emails (inbox_pagination xs ps p)) [1..int k]
        = map (\<lambda>i. take (nat ps) (drop (i * nat ps) xs)) [0..<k]"
  proof -
    have "\<And>i. i < k \<Longrightarrow> emails (inbox_pagination xs ps (int i + 1)) = take (nat ps) (drop (i * nat ps) xs)"
    proof -
      fix i assume "i < k"
      then have "int i + 1 \<le> ?tp" using tpk by simp
      then have "emails (inbox_pagination xs ps (int i + 1))
                 = take (nat ps) (drop (nat ((int i + 1 - 1) * ps)) xs)"
        using ps by (intro page_emails_take) simp_all
      moreover have "nat ((int i + 1 - 1) * ps) = i * nat ps"
        using ps by (simp add: nat_mult_distrib)
      ultimately show "emails (inbox_pagination xs ps (int i + 1)) = take (nat ps) (drop (i * nat ps) xs)"
        by simp
    qed
    then show ?thesis by (simp add: upto_as_upt)
  qed
  then have "concat (map (\<lambda>p. emails (inbox_pagination xs ps p)) [1..?tp]) = take (k * nat ps) xs"
    using tpk by (simp add: concat_pages)
  moreover have "length xs \<le> k * nat ps"
  proof -
    have "int (length xs) \<le> int k * ps" using total_pages_bounds(1)[OF ps, of xs] tpk by simp
    also have "\<dots> = int (k * nat ps)" using ps by simp
    finally show ?thesis by linarith
  qed
  ultimately show ?thesis by simp
qed

text \<open>
  Claim C1. For a batch of \<open>n \<ge> 0\<close> messages and a page size among 10, 25, 50 and
  100, the pagination of \<open>inbox_page\<close> computes \<open>total_pages = ceil(n / per_page)\<close>;
  every page \<open>p\<close> with \<open>1 \<le> p \<le> total_pages\<close> is the contiguous slice from
  \<open>(p - 1) * per_page\<close> up to \<open>min(p * per_page, n)\<close> of the batch; and the pages
  concatenated in page order are the batch in its order. (For \<open>n = 0\<close> there are no
  pages: \<open>inbox_page\<close> shows the empty-inbox notice.)
\<close>

theorem pagination_correct:
  assumes "per_page \<in> page_sizes"
  shows "(let n = int (length all_emails);
              tp = \<lceil>real_of_int n / real_of_int per_page\<rceil>
          in (\<forall>p. total_pages (inbox_pagination all_emails per_page p) = tp)
           \<and> (\<forall>p. 1 \<le> p \<and> p \<le> tp \<longrightarrow>
                  current_page (inbox_pagination all_emails per_page p) = p
                \<and> start_idx (inbox_pagination all_emails per_page p) = (p - 1) * per_page
                \<and> end_idx (inbox_pagination all_emails per_page p) = min (p * per_page) n
                \<and> emails (inbox_pagination all_emails per_page p)
                    = take (nat (min (p * per_page) n - (p - 1) * per_page))
                        (drop (nat ((p - 1) * per_page)) all_emails))
           \<and> concat (map (\<lambda>p. emails (inbox_pagination all_emails per_page p)) [1..tp])
               = all_emails)"
proof -
  have ps: "0 < per_page" using assms by (auto simp: page_sizes_def)
  have c: "\<lceil>real_of_int (int (length all_emails)) / real_of_int per_page\<rceil>
           = (int (length all_emails) + per_page - 1) div per_page"
    using ceil_div[OF ps] by simp
  show ?thesis
    unfolding Let_def c
    using page_fields[OF ps] concat_all_pages[OF ps] total_pages_eq
    by blast
qed

theorem pagination_correct_witness:
  "(10::int) \<in> page_sizes \<and>
   (let n = int (length [0..<23]);
        tp = \<lceil>real_of_int n / real_of_int 10\<rceil>
    in (\<forall>p. total_pages (inbox_pagination [0..<23] 10 p) = tp)
     \<and> (\<forall>p. 1 \<le> p \<and> p \<le> tp \<longrightarrow>
            current_page (inbox_pagination [0..<23] 10 p) = p
          \<and> start_idx (inbox_pagination [0..<23] 10 p) = (p - 1) * 10
          \<and> end_idx (inbox_pagination [0..<23] 10 p) = min (p * 10) n
          \<and> emails (inbox_pagination [0..<23] 10 p)
              = take (nat (min (p * 10) n - (p - 1) * 10))
                  (drop (nat ((p - 1) * 10)) [0..<23]))
     \<and> concat (map (\<lambda>p. emails (inbox_pagination [0..<23] 10 p)) [1..tp])
         = [0..<23])"
proof -
  have h: "(10::int) \<in> page_sizes" by (simp add: page_sizes_def)
  show ?thesis by (rule conjI[OF h pagination_correct[OF h]])
qed

lemma total_pages_pos:
  assumes ps: "0 < ps" and ne: "xs \<noteq> []"
  shows "1 \<le> (int (length xs) + ps - 1) div ps"
proof -
  have "0 < length xs" using ne by simp
  then have "ps \<le> int (length xs) + ps - 1" by simp
  then have "0 < (int (length xs) + ps - 1) div ps"
    using ps by (simp add: pos_imp_zdiv_pos_iff)
  then show ?thesis by linarith
qed

lemma pagination_clamped:
  "inbox_pagination xs ps p
   = inbox_pagination xs ps (min p ((int (length xs) + ps - 1) div ps))"
  by (simp add: inbox_pagination_def Let_def min_def)

lemma clamped_page_fields:
  assumes ps: "0 < ps" and ne: "xs \<noteq> []" and p1: "1 \<le> p"
  defines "tp \<equiv> (int (length xs) + ps - 1) div ps"
  shows "current_page (inbox_pagination xs ps p) = min p tp"
    and "emails (inbox_pagination xs ps p) = take (nat ps) (drop (nat ((min p tp - 1) * ps)) xs)"
    and "emails (inbox_pagination xs ps p) \<noteq> []"
proof -
  have tp1: "1 \<le> tp" unfolding tp_def using total_pages_pos[OF ps ne] .
  let ?c = "min p tp"
  have c1: "1 \<le> ?c" using p1 tp1 by simp
  have c2: "?c \<le> (int (length xs) + ps - 1) div ps" by (simp add: tp_def)
  have cl: "inbox_pagination xs ps p = inbox_pagination xs ps ?c"
    unfolding tp_def by (rule pagination_clamped)
  show "current_page (inbox_pagination xs ps p) = ?c"
    using page_fields(1)[OF ps c1 c2] cl by simp
  show em: "emails (inbox_pagination xs ps p) = take (nat ps) (drop (nat ((?c - 1) * ps)) xs)"
    using page_emails_take[OF ps c1 c2] cl by simp
  have "(tp - 1) * ps < int (length xs)"
    unfolding tp_def using total_pages_bounds(2)[OF ps] .
  moreover have "(?c - 1) * ps \<le> (tp - 1) * ps" using ps by (simp add: mult_right_mono)
  ultimately have "(?c - 1) * ps < int (length xs)" by linarith
  moreover have "0 \<le> (?c - 1) * ps" using c1 ps by simp
  ultimately have "nat ((?c - 1) * ps) < length xs" by (simp add: nat_less_iff)
  then have "drop (nat ((?c - 1) * ps)) xs \<noteq> []" by simp
  moreover have "0 < nat ps" using ps by simp
  ultimately have "take (nat ps) (drop (nat ((?c - 1) * ps)) xs) \<noteq> []"
    by (metis take_eq_Nil less_numeral_extra(3))
  then show "emails (inbox_pagination xs ps p) \<noteq> []" using em by simp
qed

text \<open>
  Claim C2 does not hold for page number 0. \<open>inbox_page\<close> clamps the page number from
  above only, although its comment says \<open>Ensure current page is valid\<close>: with page 0 in
  the session, a batch of three messages is shown as the empty page 0 of 1. Page 0
  enters the session through line 680 when the Prev button reports a click on a run
  whose clamp has just lowered the current page to 1.
\<close>

theorem page_zero_shows_empty_page:
  "inbox_page_render (Inr [1, 2, 3 :: nat]) 10 0
   = InboxPage \<lparr> total_emails = 3, total_pages = 1, current_page = 0,
                 start_idx = - 10, end_idx = 0, emails = [] \<rparr>
   \<and> inbox_page_state \<lparr> email_page = 2, emails_per_page = 10 \<rparr> BtnPrev
        (Inr [1, 2, 3 :: nat])
     = \<lparr> email_page = 0, emails_per_page = 10 \<rparr>"
proof -
  have tp: "(int (length [1, 2, 3 :: nat]) + 10 - 1) div 10 = 1" by simp
  have sl: "py_slice [1, 2, 3 :: nat] (- 10) 0 = []"
    by (simp add: py_slice_def py_bound_def)
  have v0: "inbox_pagination [1, 2, 3 :: nat] 10 0
        = \<lparr> total_emails = 3, total_pages = 1, current_page = 0,
            start_idx = - 10, end_idx = 0, emails = [] \<rparr>"
    unfolding inbox_pagination_def Let_def tp using sl by simp
  have a: "inbox_page_render (Inr [1, 2, 3 :: nat]) 10 0
   = InboxPage \<lparr> total_emails = 3, total_pages = 1, current_page = 0,
                 start_idx = - 10, end_idx = 0, emails = [] \<rparr>"
    using v0 by (simp add: inbox_page_render_def)
  have t2: "total_pages (inbox_pagination [1, 2, 3 :: nat] 10 2) = 1"
    unfolding total_pages_eq by simp
  have "current_page (inbox_pagination [1, 2, 3 :: nat] 10 2)
        = min 2 ((int (length [1, 2, 3 :: nat]) + 10 - 1) div 10)"
    by (rule clamped_page_fields(1)) simp_all
  also have "\<dots> = 1" unfolding tp by simp
  finally have c2: "current_page (inbox_pagination [1, 2, 3 :: nat] 10 2) = 1" .
  have b: "inbox_page_state \<lparr> email_page = 2, emails_per_page = 10 \<rparr> BtnPrev
        (Inr [1, 2, 3 :: nat])
     = \<lparr> email_page = 0, emails_per_page = 10 \<rparr>"
    using t2 c2 by (simp add: inbox_page_state_def paginate_state_def Let_def)
  show ?thesis using a b by (rule conjI)
qed

text \<open>
  The clamp from above: for a non-empty batch, a page size among 10, 25, 50 and 100 and
  a requested page number \<open>p \<ge> 1\<close>, the page shown is \<open>min(p, total_pages)\<close>, which
  lies in \<open>[1, ceil(n / per_page)]\<close>; its slice is not empty, and a request beyond
  the last page shows the last page.
\<close>

lemma page_clamp_upper:
  assumes "all_emails \<noteq> []" and "per_page \<in> page_sizes" and "1 \<le> p"
  shows "(let v = inbox_pagination all_emails per_page p;
              tp = \<lceil>real_of_int (int (length all_emails)) / real_of_int per_page\<rceil>
          in inbox_page_render (Inr all_emails) per_page p = InboxPage v
           \<and> current_page v = min p tp
           \<and> 1 \<le> current_page v \<and> current_page v \<le> tp
           \<and> emails v \<noteq> []
           \<and> emails v = take (nat per_page)
                          (drop (nat ((current_page v - 1) * per_page)) all_emails)
           \<and> (tp < p \<longrightarrow> v = inbox_pagination all_emails per_page tp))"
proof -
  have ps: "0 < per_page" using assms(2) by (auto simp: page_sizes_def)
  let ?tp = "(int (length all_emails) + per_page - 1) div per_page"
  have c: "\<lceil>real_of_int (int (length all_emails)) / real_of_int per_page\<rceil> = ?tp"
    using ceil_div[OF ps] by simp
  have tp1: "1 \<le> ?tp" using total_pages_pos[OF ps assms(1)] .
  have r: "inbox_page_render (Inr all_emails) per_page p
           = InboxPage (inbox_pagination all_emails per_page p)"
    using assms(1) by (simp add: inbox_page_render_def)
  have cp: "current_page (inbox_pagination all_emails per_page p) = min p ?tp"
    using clamped_page_fields(1)[OF ps assms(1) assms(3)] .
  have em: "emails (inbox_pagination all_emails per_page p)
            = take (nat per_page) (drop (nat ((min p ?tp - 1) * per_page)) all_emails)"
    using clamped_page_fields(2)[OF ps assms(1) assms(3)] .
  have ne: "emails (inbox_pagination all_emails per_page p) \<noteq> []"
    using clamped_page_fields(3)[OF ps assms(1) assms(3)] .
  have last: "?tp < p \<longrightarrow> inbox_pagination all_emails per_page p
                          = inbox_pagination all_emails per_page ?tp"
    using pagination_clamped[of all_emails per_page p] by (simp add: min_def)
  have b: "1 \<le> min p ?tp" "min p ?tp \<le> ?tp" using assms(3) tp1 by simp_all
  show ?thesis
    unfolding Let_def c using r cp em ne last b by simp
qed

lemma py_slice_to_nat: "py_slice_to xs (int k) = take k xs"
  by (simp add: py_slice_to_def py_bound_def)

lemma truncate_body_short: "length body \<le> 500 \<Longrightarrow> truncate_body body = body"
  by (simp add: truncate_body_def)

lemma truncate_body_long:
  "500 < length body \<Longrightarrow> truncate_body body = take 500 body @ str ''...''"
  using py_slice_to_nat[of body 500] by (simp add: truncate_body_def)

lemma truncate_body_length: "length (truncate_body body) \<le> 503"
proof (cases "500 < length body")
  case True
  then show ?thesis by (simp add: truncate_body_long)
next
  case False
  then show ?thesis by (simp add: truncate_body_short)
qed

lemma truncate_body_idem: "truncate_body (truncate_body body) = truncate_body body"
proof (cases "500 < length body")
  case True
  let ?t = "take 500 body @ str ''...''"
  have t: "truncate_body body = ?t" using True by (rule truncate_body_long)
  have len: "500 < length ?t" using True by simp
  have "truncate_body ?t = take 500 ?t @ str ''...''" using len by (rule truncate_body_long)
  also have "take 500 ?t = take 500 body" using True by simp
  finally show ?thesis using t by simp
next
  case False
  then show ?thesis by (simp add: truncate_body_short)
qed

text \<open>
  Claim C3. The body truncation returns a string of at most 500 characters unchanged;
  for a longer string it returns the first 500 characters followed by \<open>"..."\<close>;
  truncating a truncated result changes nothing; and every body produced by either
  transport has at most 503 characters.
\<close>

theorem body_truncation:
  "(length body \<le> 500 \<longrightarrow> truncate_body body = body)
   \<and> (500 < length body \<longrightarrow> truncate_body body = take 500 body @ str ''...'')
   \<and> truncate_body (truncate_body body) = truncate_body body
   \<and> length (truncate_body body) \<le> 503
   \<and> get_email_body msg = truncate_body (extract_body msg)
   \<and> length (get_email_body msg) \<le> 503
   \<and> (\<forall>r. message_record lib email_id msg = Inr r \<longrightarrow>
          em_body r = get_email_body msg \<and> length (em_body r) \<le> 503)
   \<and> length (em_body (oauth_record lower msg_id message)) \<le> 503"
proof -
  have g: "length (get_email_body msg) \<le> 503"
    by (simp add: get_email_body_def truncate_body_length)
  have "\<forall>r. message_record lib email_id msg = Inr r \<longrightarrow>
          em_body r = get_email_body msg \<and> length (em_body r) \<le> 503"
    using g by (auto simp: message_record_def Let_def split: sum.splits)
  moreover have "length (em_body (oauth_record lower msg_id message)) \<le> 503"
    by (simp add: oauth_record_def Let_def truncate_body_length)
  ultimately show ?thesis
    using g
    by (simp add: truncate_body_short truncate_body_long truncate_body_idem
        truncate_body_length get_email_body_def)
qed

theorem body_truncation_witness:
  "length (str ''hello'') \<le> 500 \<and> truncate_body (str ''hello'') = str ''hello''
   \<and> 500 < length (replicate 501 (97::nat))
   \<and> truncate_body (replicate 501 97) = replicate 500 97 @ str ''...''"
proof -
  have a: "length (str ''hello'') \<le> 500" by simp
  have b: "500 < length (replicate 501 (97::nat))" by simp
  have c: "take 500 (replicate 501 (97::nat)) = replicate 500 97" by simp
  from body_truncation[of "str ''hello''"] a
  have 1: "truncate_body (str ''hello'') = str ''hello''" by blast
  from body_truncation[of "replicate 501 97"] b
  have "truncate_body (replicate 501 97) = take 500 (replicate 501 97) @ str ''...''" by blast
  then have 2: "truncate_body (replicate 501 97) = replicate 500 97 @ str ''...''"
    using c by simp
  show ?thesis using a b 1 2 by blast
qed

subsection \<open>Selection of the latest identifiers\<close>

lemma select_recent_zero: "select_recent email_ids 0 = rev email_ids"
  by (cases email_ids) (simp_all add: select_recent_def py_slice_from_def py_bound_def)

lemma select_recent_pos:
  assumes "1 \<le> count"
  shows "select_recent email_ids count = rev (drop (length email_ids - nat count) email_ids)"
proof (cases "int (length email_ids) > count")
  case True
  then have "py_bound (- count) (length email_ids) = length email_ids - nat count"
    using assms by (simp add: py_bound_def nat_diff_distrib')
  then show ?thesis using True by (simp add: select_recent_def py_slice_from_def)
next
  case False
  then have "length email_ids - nat count = 0" by simp
  then show ?thesis using False by (simp add: select_recent_def)
qed

lemma select_recent_length_pos:
  assumes "1 \<le> count"
  shows "length (select_recent email_ids count) = min (nat count) (length email_ids)"
  using assms by (simp add: select_recent_pos)

lemma select_recent_neg:
  assumes "count < 0"
  shows "select_recent email_ids count = rev (drop (nat (- count)) email_ids)"
proof -
  have "py_bound (- count) (length email_ids) = min (nat (- count)) (length email_ids)"
    using assms by (simp add: py_bound_nonneg)
  then show ?thesis using assms by (simp add: select_recent_def py_slice_from_def min_def)
qed

subsection \<open>The fetch loop\<close>

lemma parts_records_tuple:
  assumes "message_record lib email_id msg = Inr r"
  shows "parts_records lib email_id [PartTuple msg, PartOther] collected = Inr (collected @ [r])"
  using assms by simp

lemma fetch_loop_all_ok:
  assumes "\<forall>i \<in> set ids. fetch i = Inr (str ''OK'', [PartTuple (m i), PartOther])
                        \<and> message_record lib i (m i) = Inr (r i)"
  shows "fetch_loop lib fetch ids collected = Inr (collected @ map r ids)"
  using assms
proof (induction ids arbitrary: collected)
  case Nil
  show ?case by simp
next
  case (Cons i ids)
  have f: "fetch i = Inr (str ''OK'', [PartTuple (m i), PartOther])" using Cons.prems by simp
  have mr: "message_record lib i (m i) = Inr (r i)" using Cons.prems by simp
  have rest: "\<forall>j \<in> set ids. fetch j = Inr (str ''OK'', [PartTuple (m j), PartOther])
                           \<and> message_record lib j (m j) = Inr (r j)"
    using Cons.prems by simp
  have "fetch_loop lib fetch (i # ids) collected = fetch_loop lib fetch ids (collected @ [r i])"
    by (simp add: f mr)
  also have "\<dots> = Inr ((collected @ [r i]) @ map r ids)"
    using Cons.IH[OF rest] .
  finally show ?case by simp
qed

lemma set_select_recent: "set (select_recent email_ids count) \<subseteq> set email_ids"
  by (auto simp: select_recent_def py_slice_from_def dest: in_set_dropD)

lemma fetch_emails_all_ok:
  assumes op: "imap_open env = None"
    and se: "imap_search env = Inr (str ''OK'', email_ids)"
    and fe: "\<forall>i \<in> set email_ids.
               imap_fetch env i = Inr (str ''OK'', [PartTuple (m i), PartOther])
               \<and> message_record lib i (m i) = Inr (r i)"
    and cl: "imap_close env = None"
  shows "fetch_emails lib env count = Inr (map r (select_recent email_ids count))"
proof -
  have "\<forall>i \<in> set (select_recent email_ids count).
          imap_fetch env i = Inr (str ''OK'', [PartTuple (m i), PartOther])
          \<and> message_record lib i (m i) = Inr (r i)"
    using fe set_select_recent[of email_ids count] by blast
  then have "fetch_loop lib (imap_fetch env) (select_recent email_ids count) []
             = Inr ([] @ map r (select_recent email_ids count))"
    by (rule fetch_loop_all_ok)
  then show ?thesis using op se cl by (simp add: fetch_emails_def)
qed

lemma format_date_fallback:
  assumes "parse_date lib s = None"
  shows "format_date lib (HStr s) = Inr (if s = [] then str ''Unknown'' else take 20 s)"
  using assms py_slice_to_nat[of s 20] by (simp add: format_date_def)

lemma demo_message_record:
  "message_record demo_lib (str ''1'') (demo_messages (str ''1'')) = Inr (demo_record (str ''1''))"
  "message_record demo_lib (str ''2'') (demo_messages (str ''2'')) = Inr (demo_record (str ''2''))"
  "message_record demo_lib (str ''3'') (demo_messages (str ''3'')) = Inr (demo_record (str ''3''))"
  by (simp_all add: message_record_def decode_mime_header_def decode_part_def format_date_def
      demo_lib_def demo_parse_date_def demo_messages_def demo_message_def demo_record_def
      get_default_def get_email_body_def extract_body_def truncate_body_def
      py_slice_to_def py_bound_def)

text \<open>
  Claim C7 does not hold for \<open>count = 0\<close>: the slice \<open>email_ids[-0:]\<close> is the whole
  list, so a request for zero messages selects all three identifiers instead of none.
\<close>

theorem select_recent_count_zero_example:
  "select_recent [str ''1'', str ''2'', str ''3''] 0 = [str ''3'', str ''2'', str ''1'']
   \<and> length (select_recent [str ''1'', str ''2'', str ''3''] 0) \<noteq> min 0 3"
  by (simp add: select_recent_def py_slice_from_def py_bound_def)

text \<open>
  Claim C10. With \<open>count = 0\<close> the direct-credential fetch returns the entire mailbox,
  newest first, because \<open>email_ids[-0:]\<close> is the whole list; the batch length is
  \<open>min(count, total)\<close> for every \<open>count \<ge> 1\<close>, and for \<open>count = 0\<close> it is not as soon
  as the mailbox is not empty. The batch is stated for a mailbox whose every message
  is fetched (the tuple followed by the closing line) and decoded without an exception.
\<close>

theorem count_zero_returns_all:
  "select_recent email_ids 0 = rev email_ids
   \<and> (email_ids \<noteq> [] \<longrightarrow>
        int (length (select_recent email_ids 0)) \<noteq> min 0 (int (length email_ids)))
   \<and> (\<forall>count. 1 \<le> count \<longrightarrow>
        int (length (select_recent email_ids count)) = min count (int (length email_ids)))
   \<and> (imap_open env = None \<and> imap_search env = Inr (str ''OK'', email_ids)
        \<and> (\<forall>i \<in> set email_ids.
              imap_fetch env i = Inr (str ''OK'', [PartTuple (m i), PartOther])
              \<and> message_record lib i (m i) = Inr (r i))
        \<and> imap_close env = None
       \<longrightarrow> fetch_emails lib env 0 = Inr (map r (rev email_ids)))"
proof -
  have a: "select_recent email_ids 0 = rev email_ids" by (rule select_recent_zero)
  have b: "email_ids \<noteq> [] \<longrightarrow>
        int (length (select_recent email_ids 0)) \<noteq> min 0 (int (length email_ids))"
    by (simp add: a)
  have c: "\<forall>count. 1 \<le> count \<longrightarrow>
        int (length (select_recent email_ids count)) = min count (int (length email_ids))"
  proof (intro allI impI)
    fix count :: int
    assume "1 \<le> count"
    then show "int (length (select_recent email_ids count)) = min count (int (length email_ids))"
      using select_recent_length_pos[of count email_ids] by simp
  qed
  have d: "imap_open env = None \<and> imap_search env = Inr (str ''OK'', email_ids)
        \<and> (\<forall>i \<in> set email_ids.
              imap_fetch env i = Inr (str ''OK'', [PartTuple (m i), PartOther])
              \<and> message_record lib i (m i) = Inr (r i))
        \<and> imap_close env = None
       \<longrightarrow> fetch_emails lib env 0 = Inr (map r (rev email_ids))"
    using fetch_emails_all_ok[of env email_ids m lib r 0] a by simp
  show ?thesis using a b c d by (intro conjI)
qed

theorem count_zero_returns_all_witness:
  "[str ''1'', str ''2'', str ''3''] \<noteq> []
   \<and> int (length (select_recent [str ''1'', str ''2'', str ''3''] 0))
       \<noteq> min 0 (int (length [str ''1'', str ''2'', str ''3'']))
   \<and> (1::int) \<le> 2
   \<and> int (length (select_recent [str ''1'', str ''2'', str ''3''] 2))
       = min 2 (int (length [str ''1'', str ''2'', str ''3'']))
   \<and> imap_open demo_env = None
   \<and> imap_search demo_env = Inr (str ''OK'', [str ''1'', str ''2'', str ''3''])
   \<and> imap_fetch demo_env (str ''1'')
       = Inr (str ''OK'', [PartTuple (demo_messages (str ''1'')), PartOther])
   \<and> imap_fetch demo_env (str ''2'')
       = Inr (str ''OK'', [PartTuple (demo_messages (str ''2'')), PartOther])
   \<and> imap_fetch demo_env (str ''3'')
       = Inr (str ''OK'', [PartTuple (demo_messages (str ''3'')), PartOther])
   \<and> message_record demo_lib (str ''1'') (demo_messages (str ''1'')) = Inr (demo_record (str ''1''))
   \<and> message_record demo_lib (str ''2'') (demo_messages (str ''2'')) = Inr (demo_record (str ''2''))
   \<and> message_record demo_lib (str ''3'') (demo_messages (str ''3'')) = Inr (demo_record (str ''3''))
   \<and> imap_close demo_env = None
   \<and> fetch_emails demo_lib demo_env 0
       = Inr (map demo_record (rev [str ''1'', str ''2'', str ''3'']))"
proof -
  let ?ids = "[str ''1'', str ''2'', str ''3'']"
  have h1: "?ids \<noteq> []" by simp
  have h2: "(1::int) \<le> 2" by simp
  have h3: "imap_open demo_env = None" by (simp add: demo_env_def)
  have h4: "imap_search demo_env = Inr (str ''OK'', ?ids)" by (simp add: demo_env_def)
  have f1: "imap_fetch demo_env (str ''1'')
       = Inr (str ''OK'', [PartTuple (demo_messages (str ''1'')), PartOther])"
    by (simp add: demo_env_def)
  have f2: "imap_fetch demo_env (str ''2'')
       = Inr (str ''OK'', [PartTuple (demo_messages (str ''2'')), PartOther])"
    by (simp add: demo_env_def)
  have f3: "imap_fetch demo_env (str ''3'')
       = Inr (str ''OK'', [PartTuple (demo_messages (str ''3'')), PartOther])"
    by (simp add: demo_env_def)
  note m1 = demo_message_record(1)
  note m2 = demo_message_record(2)
  note m3 = demo_message_record(3)
  have h5: "\<forall>i \<in> set ?ids.
              imap_fetch demo_env i = Inr (str ''OK'', [PartTuple (demo_messages i), PartOther])
              \<and> message_record demo_lib i (demo_messages i) = Inr (demo_record i)"
    using f1 f2 f3 m1 m2 m3 by simp
  have h6: "imap_close demo_env = None" by (simp add: demo_env_def)
  note t = count_zero_returns_all[of ?ids demo_env demo_messages demo_lib demo_record]
  have c1: "int (length (select_recent ?ids 0)) \<noteq> min 0 (int (length ?ids))"
    using t[THEN conjunct2, THEN conjunct1] h1 by (rule mp)
  have "1 \<le> (2::int) \<longrightarrow> int (length (select_recent ?ids 2)) = min 2 (int (length ?ids))"
    by (rule t[THEN conjunct2, THEN conjunct2, THEN conjunct1, THEN spec])
  then have c2: "int (length (select_recent ?ids 2)) = min 2 (int (length ?ids))"
    using h2 by (rule mp)
  have c3: "fetch_emails demo_lib demo_env 0 = Inr (map demo_record (rev ?ids))"
    using t[THEN conjunct2, THEN conjunct2, THEN conjunct2]
      conjI[OF h3 conjI[OF h4 conjI[OF h5 h6]]] by (rule mp)
  show ?thesis using h1 c1 h2 c2 h3 h4 f1 f2 f3 m1 m2 m3 h6 c3 by (intro conjI)
qed

text \<open>
  Claim C8 does not hold for a Date header that holds a byte outside ASCII. For a
  date given as a \<open>str\<close> that does not parse, the fallback works: the three messages
  of the first mailbox give three records and the second date is the first 20
  characters of the raw header. In the second mailbox the Date of the second message
  is a \<open>Header\<close> object: \<open>date_str[:20]\<close> raises inside the \<open>except\<close> clause, the
  exception reaches the outer handler, and the fetch returns an error and no record.
\<close>

theorem date_header_8bit_aborts_batch:
  "fetch_emails demo_lib demo_env 100
     = Inr [demo_record (str ''3''), demo_record (str ''2''), demo_record (str ''1'')]
   \<and> em_date (demo_record (str ''2'')) = take 20 (str ''the day after tomorrow at noon'')
   \<and> hdr_date (demo_messages_8bit (str ''2''))
       = Some (HHeader (str ''Mon, 01 J'' @ [228] @ str ''n 2024 10:00:00 +0000''))
   \<and> fetch_emails demo_lib demo_env_8bit 100
       = Inl (str ''Error fetching emails: '' @ header_not_subscriptable)"
proof -
  let ?ids = "[str ''1'', str ''2'', str ''3'']"
  have sel: "select_recent ?ids 100 = [str ''3'', str ''2'', str ''1'']"
    by (simp add: select_recent_def)
  have h5: "\<forall>i \<in> set ?ids.
              imap_fetch demo_env i = Inr (str ''OK'', [PartTuple (demo_messages i), PartOther])
              \<and> message_record demo_lib i (demo_messages i) = Inr (demo_record i)"
    using demo_message_record by (simp add: demo_env_def)
  have "fetch_emails demo_lib demo_env 100 = Inr (map demo_record (select_recent ?ids 100))"
    by (rule fetch_emails_all_ok[OF _ _ h5]) (simp_all add: demo_env_def)
  then have a: "fetch_emails demo_lib demo_env 100
     = Inr [demo_record (str ''3''), demo_record (str ''2''), demo_record (str ''1'')]"
    unfolding sel by simp
  have b: "em_date (demo_record (str ''2'')) = take 20 (str ''the day after tomorrow at noon'')"
    by (simp add: demo_record_def)
  have c: "hdr_date (demo_messages_8bit (str ''2''))
       = Some (HHeader (str ''Mon, 01 J'' @ [228] @ str ''n 2024 10:00:00 +0000''))"
    by (simp add: demo_messages_8bit_def demo_message_def)
  have m3: "message_record demo_lib (str ''3'') (demo_messages_8bit (str ''3''))
            = Inr (demo_record (str ''3''))"
    by (simp add: message_record_def decode_mime_header_def decode_part_def format_date_def
      demo_lib_def demo_parse_date_def demo_messages_8bit_def demo_message_def demo_record_def
      get_default_def get_email_body_def extract_body_def truncate_body_def)
  have m2: "message_record demo_lib (str ''2'') (demo_messages_8bit (str ''2''))
            = Inl (OtherError header_not_subscriptable)"
    by (simp add: message_record_def decode_mime_header_def decode_part_def format_date_def
      demo_lib_def demo_messages_8bit_def demo_message_def
      get_default_def Let_def)
  have p3: "parts_records demo_lib (str ''3'') [PartTuple (demo_messages_8bit (str ''3'')), PartOther] []
            = Inr [demo_record (str ''3'')]"
    using parts_records_tuple[OF m3, of "[]"] by simp
  have p2: "parts_records demo_lib (str ''2'') [PartTuple (demo_messages_8bit (str ''2'')), PartOther]
              [demo_record (str ''3'')]
            = Inl (OtherError header_not_subscriptable)"
    using m2 by simp
  have f: "\<And>i. imap_fetch demo_env_8bit i
            = Inr (str ''OK'', [PartTuple (demo_messages_8bit i), PartOther])"
    by (simp add: demo_env_8bit_def)
  have l2: "fetch_loop demo_lib (imap_fetch demo_env_8bit) [str ''2'', str ''1'']
              [demo_record (str ''3'')]
            = Inl (OtherError header_not_subscriptable)"
    by (simp only: fetch_loop.simps f sum.case prod.case simp_thms if_False p2)
  have loop: "fetch_loop demo_lib (imap_fetch demo_env_8bit) [str ''3'', str ''2'', str ''1''] []
            = Inl (OtherError header_not_subscriptable)"
    by (simp only: fetch_loop.simps(2)[of _ _ "str ''3''"] f sum.case prod.case simp_thms
        if_False p3 l2)
  have o: "imap_open demo_env_8bit = None" by (simp add: demo_env_8bit_def)
  have se: "imap_search demo_env_8bit = Inr (str ''OK'', ?ids)" by (simp add: demo_env_8bit_def)
  have d: "fetch_emails demo_lib demo_env_8bit 100
       = Inl (str ''Error fetching emails: '' @ header_not_subscriptable)"
    unfolding fetch_emails_def o se
    by (simp only: option.case sum.case prod.case simp_thms if_False sel loop
        fetch_error_def py_exc.case)
  show ?thesis using a b c d by (intro conjI)
qed


subsection \<open>Headers and records of the delegated transport\<close>








subsection \<open>Credentials\<close>

lemma credentials_to_dict_lookup:
  "map_of (credentials_to_dict c) ''token'' = Some (token c)"
  "map_of (credentials_to_dict c) ''refresh_token'' = Some (refresh_token c)"
  "map_of (credentials_to_dict c) ''token_uri'' = Some (token_uri c)"
  "map_of (credentials_to_dict c) ''client_id'' = Some (client_id c)"
  "map_of (credentials_to_dict c) ''client_secret'' = Some (client_secret c)"
  "map_of (credentials_to_dict c) ''scopes'' = Some (scopes_entry (scopes c))"
  by (simp_all add: credentials_to_dict_def)

lemma scopes_entry_list: "scopes_entry (PList l) = PList l"
  by (simp add: scopes_entry_def)

lemma scopes_entry_is_list: "\<exists>l. scopes_entry v = PList l"
  by (cases v) (simp_all add: scopes_entry_def)

lemma credentials_round_trip_gen:
  "credentials_from_dict (credentials_to_dict c) = Inr (c\<lparr>scopes := scopes_entry (scopes c)\<rparr>)"
  by (simp add: credentials_from_dict_def dict_get_def credentials_to_dict_lookup)

text \<open>
  Claim C4. Deserializing the serialized form of a delegated credential gives the
  credential back, field for field: token, refresh token, token endpoint, client id,
  client secret and scopes, also when the refresh token is \<open>None\<close> and when the
  sequence of scopes is empty; the serialized scopes are always a sequence, never
  \<open>None\<close> and never absent. (The scopes of a \<open>DelegatedCredential\<close> are a collection of
  strings, here the list \<open>l\<close>.)
\<close>

theorem credential_round_trip:
  "(scopes c = PList l \<longrightarrow>
      credentials_from_dict (credentials_to_dict c) = Inr c
      \<and> map_of (credentials_to_dict c) ''scopes'' = Some (PList l))
   \<and> (\<exists>l'. map_of (credentials_to_dict c) ''scopes'' = Some (PList l'))"
proof -
  have a: "scopes c = PList l \<longrightarrow>
      credentials_from_dict (credentials_to_dict c) = Inr c
      \<and> map_of (credentials_to_dict c) ''scopes'' = Some (PList l)"
  proof
    assume s: "scopes c = PList l"
    have "c\<lparr>scopes := scopes_entry (scopes c)\<rparr> = c"
      using s by (simp add: scopes_entry_list)
    then show "credentials_from_dict (credentials_to_dict c) = Inr c
      \<and> map_of (credentials_to_dict c) ''scopes'' = Some (PList l)"
      using s by (simp add: credentials_round_trip_gen credentials_to_dict_lookup scopes_entry_list)
  qed
  have b: "\<exists>l'. map_of (credentials_to_dict c) ''scopes'' = Some (PList l')"
    using scopes_entry_is_list[of "scopes c"] by (simp add: credentials_to_dict_lookup)
  show ?thesis using a b by (rule conjI)
qed

theorem credential_round_trip_witness:
  "scopes demo_credentials = PList []
   \<and> refresh_token demo_credentials = PNone
   \<and> credentials_from_dict (credentials_to_dict demo_credentials) = Inr demo_credentials
   \<and> map_of (credentials_to_dict demo_credentials) ''scopes'' = Some (PList [])"
proof -
  have h: "scopes demo_credentials = PList []" by (simp add: demo_credentials_def)
  have r: "refresh_token demo_credentials = PNone" by (simp add: demo_credentials_def)
  have "credentials_from_dict (credentials_to_dict demo_credentials) = Inr demo_credentials
      \<and> map_of (credentials_to_dict demo_credentials) ''scopes'' = Some (PList [])"
    using credential_round_trip[of demo_credentials "[]"] h by blast
  then show ?thesis using h r by blast
qed

subsection \<open>The compose page\<close>

text \<open>
  Claim C5. Whatever the session, the subject and the body are, a submitted form with
  an empty recipient is rejected with an error message and no transport call is made:
  the check of the recipient comes before the dispatch to either transport.
\<close>

theorem empty_recipient_rejected:
  "compose_page session transport True [] subject body
   = Rendered [StError (warning_sign @ str ''Please enter a recipient email address.'')] []"
  by (simp add: compose_page_def)

subsection \<open>authenticate\<close>

lemma py_in_here: "py_in sub (sub @ b)"
proof (cases "sub @ b")
  case Nil
  then show ?thesis by simp
next
  case (Cons a list)
  have "take (length sub) (sub @ b) = sub" by simp
  then have "take (length sub) (a # list) = sub" using Cons by simp
  then have "py_in sub (a # list)" by simp
  then show ?thesis using Cons by simp
qed

lemma py_in_mid: "py_in sub (a @ sub @ b)"
  by (induction a) (simp_all add: py_in_here)

lemma py_in_split: "py_in sub s \<Longrightarrow> \<exists>a b. s = a @ sub @ b"
proof (induction s)
  case Nil
  then show ?case by simp
next
  case (Cons c s)
  show ?case
  proof (cases "take (length sub) (c # s) = sub")
    case True
    have "c # s = take (length sub) (c # s) @ drop (length sub) (c # s)"
      by (simp only: append_take_drop_id)
    then have "c # s = [] @ sub @ drop (length sub) (c # s)" using True by simp
    then show ?thesis by blast
  next
    case False
    then have "py_in sub s" using Cons.prems by simp
    then obtain a b where "s = a @ sub @ b" using Cons.IH by blast
    then have "c # s = (c # a) @ sub @ b" by simp
    then show ?thesis by blast
  qed
qed

text \<open>The test \<open>sub in s\<close> is containment as a contiguous run.\<close>

lemma py_in_iff: "py_in sub s = (\<exists>a b. s = a @ sub @ b)"
  using py_in_split py_in_mid by blast

lemma py_in_skip_prefix:
  assumes "sub \<noteq> []" and "hd sub \<notin> set p"
  shows "py_in sub (p @ e) = py_in sub e"
  using assms(2)
proof (induction p)
  case Nil
  show ?case by simp
next
  case (Cons c p)
  have "take (length sub) (c # p @ e) \<noteq> sub"
  proof
    assume eq: "take (length sub) (c # p @ e) = sub"
    obtain x xs where sub: "sub = x # xs" using assms(1) by (cases sub) auto
    from eq sub have "x = c" by simp
    then show False using Cons.prems sub by simp
  qed
  then show ?case using Cons by simp
qed

lemma py_upper_append: "py_upper table (a @ b) = py_upper table a @ py_upper table b"
  by (simp add: py_upper_def)

lemma py_upper_ascii:
  "list_all (\<lambda>c. c < 128) w \<Longrightarrow> py_upper table w = map ascii_upper_char w"
  by (induction w) (simp_all add: py_upper_def)

lemma py_upper_contains:
  assumes "e = a @ w @ b" and "list_all (\<lambda>c. c < 128) w" and "map ascii_upper_char w = t"
  shows "\<exists>a' b'. py_upper table e = a' @ t @ b'"
proof -
  have "py_upper table e = py_upper table a @ t @ py_upper table b"
    using assms by (simp add: py_upper_append py_upper_ascii)
  then show ?thesis by blast
qed

lemma guidance_in_message: "py_in app_password_guidance guidance_message"
proof -
  have e: "guidance_message
        = str ''Authentication failed: '' @ app_password_guidance @ str ''. See instructions below.''"
    by (simp add: guidance_message_def app_password_guidance_def)
  show ?thesis unfolding e by (rule py_in_mid)
qed

lemma guidance_hd: "app_password_guidance \<noteq> []" "hd app_password_guidance = 80"
  by (simp_all add: app_password_guidance_def)

lemma generic_auth_no_guidance:
  "py_in app_password_guidance (str ''Authentication failed: '' @ e)
   = py_in app_password_guidance e"
  by (rule py_in_skip_prefix) (simp_all add: guidance_hd)

lemma generic_conn_no_guidance:
  "py_in app_password_guidance (str ''Connection error: '' @ e)
   = py_in app_password_guidance e"
  by (rule py_in_skip_prefix) (simp_all add: guidance_hd)

lemma authenticate_cases:
  "first_exc env = None \<Longrightarrow> authenticate table env = (True, str ''Authentication successful!'')"
  "first_exc env = Some (ImapError e) \<Longrightarrow> is_auth_failed table e
     \<Longrightarrow> authenticate table env = (False, guidance_message)"
  "first_exc env = Some (ImapError e) \<Longrightarrow> \<not> is_auth_failed table e
     \<Longrightarrow> authenticate table env = (False, str ''Authentication failed: '' @ e)"
  "first_exc env = Some (OtherError e)
     \<Longrightarrow> authenticate table env = (False, str ''Connection error: '' @ e)"
  by (simp_all add: authenticate_def)

lemma is_auth_failed_iff:
  "is_auth_failed table e
   = ((\<exists>a b. py_upper table e = a @ str ''AUTHENTICATIONFAILED'' @ b)
      \<or> (\<exists>a b. e = a @ str ''Invalid credentials'' @ b))"
  unfolding is_auth_failed_def py_in_iff ..

text \<open>
  Claim C6, as stated, fails for a login that the provider rejects with a text other
  than the two the code looks for: the login raises \<open>IMAP4.error\<close> with the text
  \<open>[ALERT] Application-specific password required\<close>, and the result is the generic
  message, which does not carry the guidance.
\<close>

theorem login_rejected_other_text_counterexample:
  "first_exc \<lparr> imap_connect = None,
               imap_login = Some (ImapError (str ''[ALERT] Application-specific password required'')),
               imap_logout = None \<rparr>
     = Some (ImapError (str ''[ALERT] Application-specific password required''))
   \<and> authenticate identity_table
        \<lparr> imap_connect = None,
          imap_login = Some (ImapError (str ''[ALERT] Application-specific password required'')),
          imap_logout = None \<rparr>
       = (False, str ''Authentication failed: [ALERT] Application-specific password required'')
   \<and> \<not> py_in app_password_guidance
          (snd (authenticate identity_table
                  \<lparr> imap_connect = None,
                    imap_login = Some (ImapError (str ''[ALERT] Application-specific password required'')),
                    imap_logout = None \<rparr>))"
proof -
  let ?e = "str ''[ALERT] Application-specific password required''"
  let ?env = "\<lparr> imap_connect = None, imap_login = Some (ImapError ?e), imap_logout = None \<rparr>"
  have f: "first_exc ?env = Some (ImapError ?e)" by (simp add: first_exc_def)
  have n1: "\<not> py_in (str ''AUTHENTICATIONFAILED'') (py_upper identity_table ?e)"
    by (simp add: py_upper_def ascii_upper_char_def)
  have n2: "\<not> py_in (str ''Invalid credentials'') ?e" by simp
  have n: "\<not> is_auth_failed identity_table ?e"
    using n1 n2 by (simp only: is_auth_failed_def simp_thms)
  have a: "authenticate identity_table ?env = (False, str ''Authentication failed: '' @ ?e)"
    using f n by (rule authenticate_cases(3))
  have a': "authenticate identity_table ?env
            = (False, str ''Authentication failed: [ALERT] Application-specific password required'')"
    using a by simp
  have g0: "\<not> py_in app_password_guidance ?e" by (simp add: app_password_guidance_def)
  have g: "\<not> py_in app_password_guidance (snd (authenticate identity_table ?env))"
    unfolding a snd_conv generic_auth_no_guidance using g0 .
  show ?thesis using f a' g by (intro conjI)
qed

text \<open>
  Claim C6, amended. When the exception that ends \<open>authenticate\<close> is a protocol error
  whose text contains AUTHENTICATIONFAILED in any letter case, or contains
  \<open>Invalid credentials\<close>, the result is a failure whose message contains the guidance
  to use an App Password instead of the account password. A protocol error with any
  other text, a rejected login included, gives the generic failure message
  \<open>Authentication failed: \<close> followed by the error text, and any other exception gives
  \<open>Connection error: \<close> followed by its text; a generic message contains the guidance
  only if the error text does.
\<close>

theorem authenticate_messages:
  "(first_exc env = Some (ImapError e)
      \<and> ((\<exists>a b. py_upper table e = a @ str ''AUTHENTICATIONFAILED'' @ b)
           \<or> (\<exists>a b. e = a @ str ''Invalid credentials'' @ b))
     \<longrightarrow> authenticate table env = (False, guidance_message))
   \<and> (\<exists>a b. guidance_message = a @ app_password_guidance @ b)
   \<and> (\<forall>a w b. e = a @ w @ b \<and> list_all (\<lambda>c. c < 128) w
          \<and> map ascii_upper_char w = str ''AUTHENTICATIONFAILED''
        \<longrightarrow> (\<exists>a' b'. py_upper table e = a' @ str ''AUTHENTICATIONFAILED'' @ b'))
   \<and> (first_exc env = Some (ImapError e)
        \<and> \<not> (\<exists>a b. py_upper table e = a @ str ''AUTHENTICATIONFAILED'' @ b)
        \<and> \<not> (\<exists>a b. e = a @ str ''Invalid credentials'' @ b)
       \<longrightarrow> authenticate table env = (False, str ''Authentication failed: '' @ e))
   \<and> (first_exc env = Some (OtherError e)
       \<longrightarrow> authenticate table env = (False, str ''Connection error: '' @ e))
   \<and> (\<not> (\<exists>a b. e = a @ app_password_guidance @ b)
       \<longrightarrow> \<not> (\<exists>a b. str ''Authentication failed: '' @ e = a @ app_password_guidance @ b)
           \<and> \<not> (\<exists>a b. str ''Connection error: '' @ e = a @ app_password_guidance @ b))"
proof -
  have c1: "first_exc env = Some (ImapError e)
      \<and> ((\<exists>a b. py_upper table e = a @ str ''AUTHENTICATIONFAILED'' @ b)
           \<or> (\<exists>a b. e = a @ str ''Invalid credentials'' @ b))
     \<longrightarrow> authenticate table env = (False, guidance_message)"
    using authenticate_cases(2)[of env e table] unfolding is_auth_failed_iff by blast
  have c2: "\<exists>a b. guidance_message = a @ app_password_guidance @ b"
    using guidance_in_message unfolding py_in_iff .
  have c3: "\<forall>a w b. e = a @ w @ b \<and> list_all (\<lambda>c. c < 128) w
          \<and> map ascii_upper_char w = str ''AUTHENTICATIONFAILED''
        \<longrightarrow> (\<exists>a' b'. py_upper table e = a' @ str ''AUTHENTICATIONFAILED'' @ b')"
    using py_upper_contains[of e _ _ _ "str ''AUTHENTICATIONFAILED''" table] by blast
  have c4: "first_exc env = Some (ImapError e)
        \<and> \<not> (\<exists>a b. py_upper table e = a @ str ''AUTHENTICATIONFAILED'' @ b)
        \<and> \<not> (\<exists>a b. e = a @ str ''Invalid credentials'' @ b)
       \<longrightarrow> authenticate table env = (False, str ''Authentication failed: '' @ e)"
    using authenticate_cases(3)[of env e table] unfolding is_auth_failed_iff by blast
  have c5: "first_exc env = Some (OtherError e)
       \<longrightarrow> authenticate table env = (False, str ''Connection error: '' @ e)"
    using authenticate_cases(4)[of env e table] by blast
  have c6: "\<not> (\<exists>a b. e = a @ app_password_guidance @ b)
       \<longrightarrow> \<not> (\<exists>a b. str ''Authentication failed: '' @ e = a @ app_password_guidance @ b)
           \<and> \<not> (\<exists>a b. str ''Connection error: '' @ e = a @ app_password_guidance @ b)"
    using generic_auth_no_guidance[of e] generic_conn_no_guidance[of e]
    unfolding py_in_iff by blast
  show ?thesis using c1 c2 c3 c4 c5 c6 by (intro conjI)
qed

theorem authenticate_messages_witness:
  "first_exc \<lparr> imap_connect = None,
               imap_login = Some (ImapError (str ''[AuthenticationFailed] Invalid credentials (Failure)'')),
               imap_logout = None \<rparr>
     = Some (ImapError (str ''[AuthenticationFailed] Invalid credentials (Failure)''))
   \<and> list_all (\<lambda>c. c < 128) (str ''AuthenticationFailed'')
   \<and> map ascii_upper_char (str ''AuthenticationFailed'') = str ''AUTHENTICATIONFAILED''
   \<and> (\<exists>a b. py_upper identity_table (str ''[AuthenticationFailed] Invalid credentials (Failure)'')
              = a @ str ''AUTHENTICATIONFAILED'' @ b)
   \<and> authenticate identity_table
         \<lparr> imap_connect = None,
           imap_login = Some (ImapError (str ''[AuthenticationFailed] Invalid credentials (Failure)'')),
           imap_logout = None \<rparr>
       = (False, guidance_message)
   \<and> first_exc \<lparr> imap_connect = None,
                 imap_login = Some (ImapError (str ''[UNAVAILABLE] Temporary failure'')),
                 imap_logout = None \<rparr>
       = Some (ImapError (str ''[UNAVAILABLE] Temporary failure''))
   \<and> \<not> (\<exists>a b. py_upper identity_table (str ''[UNAVAILABLE] Temporary failure'')
                = a @ str ''AUTHENTICATIONFAILED'' @ b)
   \<and> \<not> (\<exists>a b. str ''[UNAVAILABLE] Temporary failure'' = a @ str ''Invalid credentials'' @ b)
   \<and> authenticate identity_table
         \<lparr> imap_connect = None,
           imap_login = Some (ImapError (str ''[UNAVAILABLE] Temporary failure'')),
           imap_logout = None \<rparr>
       = (False, str ''Authentication failed: [UNAVAILABLE] Temporary failure'')
   \<and> \<not> (\<exists>a b. str ''[UNAVAILABLE] Temporary failure'' = a @ app_password_guidance @ b)
   \<and> \<not> (\<exists>a b. str ''Authentication failed: '' @ str ''[UNAVAILABLE] Temporary failure''
                = a @ app_password_guidance @ b)
   \<and> first_exc \<lparr> imap_connect = Some (OtherError (str ''Connection refused'')),
                 imap_login = None, imap_logout = None \<rparr>
       = Some (OtherError (str ''Connection refused''))
   \<and> authenticate identity_table
         \<lparr> imap_connect = Some (OtherError (str ''Connection refused'')),
           imap_login = None, imap_logout = None \<rparr>
       = (False, str ''Connection error: Connection refused'')"
proof -
  let ?e1 = "str ''[AuthenticationFailed] Invalid credentials (Failure)''"
  let ?e2 = "str ''[UNAVAILABLE] Temporary failure''"
  let ?e3 = "str ''Connection refused''"
  let ?env1 = "\<lparr> imap_connect = None, imap_login = Some (ImapError ?e1), imap_logout = None \<rparr>"
  let ?env2 = "\<lparr> imap_connect = None, imap_login = Some (ImapError ?e2), imap_logout = None \<rparr>"
  let ?env3 = "\<lparr> imap_connect = Some (OtherError ?e3), imap_login = None, imap_logout = None \<rparr>"
  have f1: "first_exc ?env1 = Some (ImapError ?e1)" by (simp add: first_exc_def)
  have f2: "first_exc ?env2 = Some (ImapError ?e2)" by (simp add: first_exc_def)
  have f3: "first_exc ?env3 = Some (OtherError ?e3)" by (simp add: first_exc_def)
  have sp: "?e1 = str ''['' @ str ''AuthenticationFailed'' @ str ''] Invalid credentials (Failure)''"
    by simp
  have as: "list_all (\<lambda>c. c < 128) (str ''AuthenticationFailed'')" by simp
  have up: "map ascii_upper_char (str ''AuthenticationFailed'') = str ''AUTHENTICATIONFAILED''"
    by (simp add: ascii_upper_char_def)
  note t1 = authenticate_messages[of ?env1 ?e1 identity_table]
  note t2 = authenticate_messages[of ?env2 ?e2 identity_table]
  note t3 = authenticate_messages[of ?env3 ?e3 identity_table]
  have "?e1 = str ''['' @ str ''AuthenticationFailed'' @ str ''] Invalid credentials (Failure)''
          \<and> list_all (\<lambda>c. c < 128) (str ''AuthenticationFailed'')
          \<and> map ascii_upper_char (str ''AuthenticationFailed'') = str ''AUTHENTICATIONFAILED''
        \<longrightarrow> (\<exists>a' b'. py_upper identity_table ?e1 = a' @ str ''AUTHENTICATIONFAILED'' @ b')"
    by (rule t1[THEN conjunct2, THEN conjunct2, THEN conjunct1, THEN spec, THEN spec, THEN spec])
  then have ci: "\<exists>a b. py_upper identity_table ?e1 = a @ str ''AUTHENTICATIONFAILED'' @ b"
    using conjI[OF sp conjI[OF as up]] by (rule mp)
  have c1: "authenticate identity_table ?env1 = (False, guidance_message)"
    using t1[THEN conjunct1] conjI[OF f1 disjI1[OF ci]] by (rule mp)
  have n2a: "\<not> (\<exists>a b. py_upper identity_table ?e2 = a @ str ''AUTHENTICATIONFAILED'' @ b)"
  proof -
    have "\<not> py_in (str ''AUTHENTICATIONFAILED'') (py_upper identity_table ?e2)"
      by (simp add: py_upper_def ascii_upper_char_def)
    then show ?thesis unfolding py_in_iff .
  qed
  have n2b: "\<not> (\<exists>a b. ?e2 = a @ str ''Invalid credentials'' @ b)"
  proof -
    have "\<not> py_in (str ''Invalid credentials'') ?e2" by simp
    then show ?thesis unfolding py_in_iff .
  qed
  have g2: "\<not> (\<exists>a b. ?e2 = a @ app_password_guidance @ b)"
  proof -
    have "\<not> py_in app_password_guidance ?e2" by (simp add: app_password_guidance_def)
    then show ?thesis unfolding py_in_iff .
  qed
  have c2: "authenticate identity_table ?env2 = (False, str ''Authentication failed: '' @ ?e2)"
    using t2[THEN conjunct2, THEN conjunct2, THEN conjunct2, THEN conjunct1]
      conjI[OF f2 conjI[OF n2a n2b]] by (rule mp)
  have c2a: "authenticate identity_table ?env2
             = (False, str ''Authentication failed: [UNAVAILABLE] Temporary failure'')"
    using c2 by simp
  have c2g: "\<not> (\<exists>a b. str ''Authentication failed: '' @ ?e2 = a @ app_password_guidance @ b)
           \<and> \<not> (\<exists>a b. str ''Connection error: '' @ ?e2 = a @ app_password_guidance @ b)"
    using t2[THEN conjunct2, THEN conjunct2, THEN conjunct2, THEN conjunct2, THEN conjunct2] g2
    by (rule mp)
  have c3: "authenticate identity_table ?env3 = (False, str ''Connection error: '' @ ?e3)"
    using t3[THEN conjunct2, THEN conjunct2, THEN conjunct2, THEN conjunct2, THEN conjunct1] f3
    by (rule mp)
  have c3a: "authenticate identity_table ?env3 = (False, str ''Connection error: Connection refused'')"
    using c3 by simp
  show ?thesis using f1 as up ci c1 f2 n2a n2b c2a g2 c2g[THEN conjunct1] f3 c3a
    by (intro conjI)
qed


end
